theory Spec2Isabelle
  imports Main "HOL-Library.AList"
begin

section \<open>The span-stack manager of \<^verbatim>\<open>src/trace.ts\<close>\<close>

text \<open>
  The class \<^verbatim>\<open>Trace\<close> keeps a stack of OpenTelemetry spans. The tracing SDK is an
  external collaborator: the model records every call the class makes into it, in order,
  and takes the span object a tracer hands out as a function of what the SDK has seen.
  JavaScript arrays and objects are references, so the arrays live in an explicit store.
\<close>

subsection \<open>Values of the SDK\<close>

text \<open>
  A \<^verbatim>\<open>Span\<close> is an object of the SDK; the class only compares spans by identity
  (\<^verbatim>\<open>!==\<close>), so a span is its identity. \<^verbatim>\<open>TimeInput\<close> and \<^verbatim>\<open>Context\<close> are passed
  through unread.
\<close>

type_synonym Span = nat
type_synonym TimeInput = nat
type_synonym Context = nat

datatype AttributeValue = AString string | ANumber int | ABoolean bool

text \<open>
  An attribute object: its properties in the order in which the object enumerates them,
  one entry per key.
\<close>

type_synonym Attributes = "(string \<times> AttributeValue) list"

datatype Status = Status nat "string option"

record SpanOptions =
  parent :: "Span option"
  attributes :: "Attributes option"

text \<open>
  One constructor per SDK operation the class uses. \<open>TracerStartSpan\<close> carries the
  arguments of \<^verbatim>\<open>tracer.startSpan(name, spanOptions, context)\<close> and the span it returned;
  an omitted optional argument is \<open>None\<close>.
\<close>

datatype sdk_call =
    TracerStartSpan string SpanOptions "Context option" Span
  | SetAttribute Span string AttributeValue
  | SetAttributes Span Attributes
  | AddEvent Span string "(Attributes + TimeInput) option" "TimeInput option"
  | SetStatus Span Status
  | UpdateName Span string
  | End Span "TimeInput option"
  | IsRecording Span
  | GetContext Span

text \<open>
  The tracer supplied to the constructor: the span it returns for a call, given the calls
  the SDK has received so far and the arguments of this one.
\<close>

type_synonym Tracer = "sdk_call list \<Rightarrow> string \<Rightarrow> SpanOptions \<Rightarrow> Context option \<Rightarrow> Span"

subsection \<open>The manager and the store\<close>

type_synonym ref = nat

text \<open>
  The fields of \<^verbatim>\<open>Trace\<close>. \<open>spanStack\<close> is a reference to an array;
  \<open>commonAttributes\<close> is an object with string values.
\<close>

record Trace =
  spanStack :: ref
  tracer :: Tracer
  commonAttributes :: "(string \<times> string) list"

text \<open>
  The manager, the arrays and objects allocated so far (\<open>next_ref\<close> is the first unused
  reference), and the calls made into the SDK, oldest first.
\<close>

record system =
  trace :: Trace
  arrays :: "ref \<Rightarrow> Span list"
  next_ref :: ref
  sdk :: "sdk_call list"

text \<open>The controller object \<^verbatim>\<open>spanRef\<close>: its identity and the span its closures capture.\<close>

record SpanWrapper =
  ident :: ref
  wrapped :: Span

text \<open>The contents of \<^verbatim>\<open>this.spanStack\<close>.\<close>

definition stack :: "system \<Rightarrow> Span list" where
  "stack s = arrays s (spanStack (trace s))"

text \<open>
  \<^verbatim>\<open>constructor(tracer)\<close>: no common attributes, a new empty array, the tracer. The
  argument \<open>log\<close> is what the SDK had received before.
\<close>

definition new_Trace :: "Tracer \<Rightarrow> sdk_call list \<Rightarrow> system" where
  "new_Trace t log =
     \<lparr>trace = \<lparr>spanStack = 0, tracer = t, commonAttributes = []\<rparr>,
      arrays = (\<lambda>_. []), next_ref = 1, sdk = log\<rparr>"

text \<open>\<^verbatim>\<open>getSpanStack()\<close>: \<^verbatim>\<open>[...this.spanStack]\<close> allocates a new array with the same elements.\<close>

definition getSpanStack :: "system \<Rightarrow> ref \<times> system" where
  "getSpanStack s =
     (next_ref s,
      s\<lparr>arrays := (arrays s)(next_ref s := arrays s (spanStack (trace s))),
        next_ref := Suc (next_ref s)\<rparr>)"

text \<open>The loop \<^verbatim>\<open>for (const span of this.spanStack) span.setAttribute(key, value)\<close>.\<close>

fun setAttribute_each :: "Span list \<Rightarrow> string \<Rightarrow> string \<Rightarrow> sdk_call list \<Rightarrow> sdk_call list" where
  "setAttribute_each [] key val log = log"
| "setAttribute_each (span # spans) key val log =
     setAttribute_each spans key val (log @ [SetAttribute span key (AString val)])"

text \<open>
  The assignment \<^verbatim>\<open>this.commonAttributes[key] = value\<close> on the object created by
  \<^verbatim>\<open>{}\<close>, with the properties listed in the order in which the object enumerates them:
  array indices first, in ascending order, then the other keys in order of creation. An
  array index is the decimal numeral, without leading zeros, of a number up to
  \<open>2\<^sup>3\<^sup>2 - 2\<close>.
\<close>

definition digit :: "char \<Rightarrow> nat option" where
  "digit c = map_of (zip ''0123456789'' [0, 1, 2, 3, 4, 5, 6, 7, 8, 9]) c"

fun decimal :: "string \<Rightarrow> nat \<Rightarrow> nat option" where
  "decimal [] n = Some n"
| "decimal (c # cs) n = (case digit c of None \<Rightarrow> None | Some d \<Rightarrow> decimal cs (10 * n + d))"

fun array_index :: "string \<Rightarrow> nat option" where
  "array_index [] = None"
| "array_index (c # cs) =
     (if c = CHR ''0'' \<and> cs \<noteq> [] then None
      else case decimal (c # cs) 0 of
             None \<Rightarrow> None
           | Some n \<Rightarrow> if n \<le> 4294967294 then Some n else None)"

text \<open>A new array index goes before the first property that is not a smaller array index.\<close>

fun insert_index :: "nat \<Rightarrow> string \<Rightarrow> string \<Rightarrow> (string \<times> string) list \<Rightarrow> (string \<times> string) list" where
  "insert_index i key val [] = [(key, val)]"
| "insert_index i key val ((k, v) # props) =
     (case array_index k of
        None \<Rightarrow> (key, val) # (k, v) # props
      | Some j \<Rightarrow> if j < i then (k, v) # insert_index i key val props
                  else (key, val) # (k, v) # props)"

text \<open>
  For the key \<^verbatim>\<open>__proto__\<close> the assignment reaches the setter inherited from
  \<^verbatim>\<open>Object.prototype\<close>, which ignores a string: no property is stored. A key the object
  has keeps its place and gets the new value; a new key is added.
\<close>

definition assign_property :: "string \<Rightarrow> string \<Rightarrow> (string \<times> string) list \<Rightarrow> (string \<times> string) list" where
  "assign_property key val props =
     (if key = ''__proto__'' then props
      else if map_of props key \<noteq> None then AList.update key val props
      else case array_index key of
             None \<Rightarrow> props @ [(key, val)]
           | Some i \<Rightarrow> insert_index i key val props)"

text \<open>\<^verbatim>\<open>addCommonAttribute(key, value)\<close>: the loop over the stack, then the assignment.\<close>

definition addCommonAttribute :: "string \<Rightarrow> string \<Rightarrow> system \<Rightarrow> system" where
  "addCommonAttribute key val s =
     s\<lparr>sdk := setAttribute_each (arrays s (spanStack (trace s))) key val (sdk s),
       trace := (trace s)\<lparr>commonAttributes :=
                  assign_property key val (commonAttributes (trace s))\<rparr>\<rparr>"

text \<open>The common attributes as the attribute object handed to \<^verbatim>\<open>span.setAttributes\<close>.\<close>

definition as_attributes :: "(string \<times> string) list \<Rightarrow> Attributes" where
  "as_attributes kvs = map (\<lambda>(k, v). (k, AString v)) kvs"

text \<open>
  \<^verbatim>\<open>startSpan(name, attributes, context)\<close>: the parent is the last element of the stack
  if there is one; the tracer creates the span; the common attributes are set on it; the
  span is pushed onto the array in place; a new controller is returned.
\<close>

definition startSpan ::
  "string \<Rightarrow> Attributes option \<Rightarrow> Context option \<Rightarrow> system \<Rightarrow> SpanWrapper \<times> system" where
  "startSpan name attrs ctx s =
     (let st = arrays s (spanStack (trace s));
          par = (if length st > 0 then Some (st ! (length st - 1)) else None);
          spanOptions = \<lparr>parent = par, attributes = attrs\<rparr>;
          span = tracer (trace s) (sdk s) name spanOptions ctx;
          log1 = sdk s @ [TracerStartSpan name spanOptions ctx span];
          log2 = log1 @ [SetAttributes span (as_attributes (commonAttributes (trace s)))];
          spanRef = \<lparr>ident = next_ref s, wrapped = span\<rparr>
      in (spanRef,
          s\<lparr>arrays := (arrays s)(spanStack (trace s) := st @ [span]),
            next_ref := Suc (next_ref s),
            sdk := log2\<rparr>))"

text \<open>
  \<^verbatim>\<open>endSpan(span, endTime)\<close>: the three branches, then \<^verbatim>\<open>span.end(endTime)\<close>. In the
  last branch \<^verbatim>\<open>slice\<close> allocates a new array and the field is reassigned to it.
\<close>

definition endSpan :: "Span \<Rightarrow> TimeInput option \<Rightarrow> system \<Rightarrow> system" where
  "endSpan span endTime s =
     (let st = arrays s (spanStack (trace s));
          s1 = (if length st = 0 then
                  s\<lparr>sdk := sdk s @ [SetAttribute span ''span_status'' (AString ''error_empty_stack'')]\<rparr>
                else if st ! (length st - 1) \<noteq> span then
                  s\<lparr>sdk := sdk s @ [SetAttribute span ''span_status'' (AString ''error_not_top'')]\<rparr>
                else
                  s\<lparr>arrays := (arrays s)(next_ref s := take (length st - 1) st),
                    next_ref := Suc (next_ref s),
                    trace := (trace s)\<lparr>spanStack := next_ref s\<rparr>\<rparr>)
      in s1\<lparr>sdk := sdk s1 @ [End span endTime]\<rparr>)"

subsection \<open>The controller returned by \<^verbatim>\<open>startSpan\<close>\<close>

text \<open>
  What a method of \<^verbatim>\<open>spanRef\<close> returns: the controller itself (\<^verbatim>\<open>return spanRef\<close>),
  nothing (a body without \<^verbatim>\<open>return\<close>), or whatever the SDK answered to the call made.
\<close>

datatype returned = Returned_spanRef SpanWrapper | Returned_undefined | Returned_by_sdk sdk_call

definition spanRef_context :: "SpanWrapper \<Rightarrow> system \<Rightarrow> returned \<times> system" where
  "spanRef_context w s =
     (Returned_by_sdk (GetContext (wrapped w)), s\<lparr>sdk := sdk s @ [GetContext (wrapped w)]\<rparr>)"

definition spanRef_setAttribute :: "SpanWrapper \<Rightarrow> string \<Rightarrow> string \<Rightarrow> system \<Rightarrow> returned \<times> system" where
  "spanRef_setAttribute w key val s =
     (Returned_spanRef w, s\<lparr>sdk := sdk s @ [SetAttribute (wrapped w) key (AString val)]\<rparr>)"

definition spanRef_setAttributes :: "SpanWrapper \<Rightarrow> Attributes \<Rightarrow> system \<Rightarrow> returned \<times> system" where
  "spanRef_setAttributes w attrs s =
     (Returned_spanRef w, s\<lparr>sdk := sdk s @ [SetAttributes (wrapped w) attrs]\<rparr>)"

definition spanRef_addEvent ::
  "SpanWrapper \<Rightarrow> string \<Rightarrow> (Attributes + TimeInput) option \<Rightarrow> TimeInput option \<Rightarrow> system
     \<Rightarrow> returned \<times> system" where
  "spanRef_addEvent w name attributesOrStartTime startTime s =
     (Returned_spanRef w,
      s\<lparr>sdk := sdk s @ [AddEvent (wrapped w) name attributesOrStartTime startTime]\<rparr>)"

definition spanRef_setStatus :: "SpanWrapper \<Rightarrow> Status \<Rightarrow> system \<Rightarrow> returned \<times> system" where
  "spanRef_setStatus w status s =
     (Returned_spanRef w, s\<lparr>sdk := sdk s @ [SetStatus (wrapped w) status]\<rparr>)"

definition spanRef_updateName :: "SpanWrapper \<Rightarrow> string \<Rightarrow> system \<Rightarrow> returned \<times> system" where
  "spanRef_updateName w name s =
     (Returned_spanRef w, s\<lparr>sdk := sdk s @ [UpdateName (wrapped w) name]\<rparr>)"

definition spanRef_end :: "SpanWrapper \<Rightarrow> TimeInput option \<Rightarrow> system \<Rightarrow> returned \<times> system" where
  "spanRef_end w endTime s = (Returned_undefined, endSpan (wrapped w) endTime s)"

definition spanRef_isRecording :: "SpanWrapper \<Rightarrow> system \<Rightarrow> returned \<times> system" where
  "spanRef_isRecording w s =
     (Returned_by_sdk (IsRecording (wrapped w)), s\<lparr>sdk := sdk s @ [IsRecording (wrapped w)]\<rparr>)"

text \<open>
  Chained calls, \<^verbatim>\<open>spanRef.setAttribute(k, v).updateName(n)\<close> and so on: each call is
  made on what the previous one returned. A call on \<^verbatim>\<open>undefined\<close>, or on a value of
  the SDK that is not a controller, raises.
\<close>

datatype mutation =
    M_setAttribute string string
  | M_setAttributes Attributes
  | M_addEvent string "(Attributes + TimeInput) option" "TimeInput option"
  | M_setStatus Status
  | M_updateName string
  | M_end "TimeInput option"

datatype error = TypeError

fun invoke :: "SpanWrapper \<Rightarrow> mutation \<Rightarrow> system \<Rightarrow> returned \<times> system" where
  "invoke w (M_setAttribute key val) s = spanRef_setAttribute w key val s"
| "invoke w (M_setAttributes attrs) s = spanRef_setAttributes w attrs s"
| "invoke w (M_addEvent name a t) s = spanRef_addEvent w name a t s"
| "invoke w (M_setStatus status) s = spanRef_setStatus w status s"
| "invoke w (M_updateName name) s = spanRef_updateName w name s"
| "invoke w (M_end endTime) s = spanRef_end w endTime s"

fun chain :: "returned \<Rightarrow> mutation list \<Rightarrow> system \<Rightarrow> error + returned \<times> system" where
  "chain r [] s = Inr (r, s)"
| "chain (Returned_spanRef w) (m # ms) s = chain (fst (invoke w m s)) ms (snd (invoke w m s))"
| "chain Returned_undefined (m # ms) s = Inl TypeError"
| "chain (Returned_by_sdk c) (m # ms) s = Inl TypeError"

text \<open>The call a mutating method forwards to the wrapped span.\<close>

fun forwarded :: "Span \<Rightarrow> mutation \<Rightarrow> sdk_call" where
  "forwarded span (M_setAttribute key val) = SetAttribute span key (AString val)"
| "forwarded span (M_setAttributes attrs) = SetAttributes span attrs"
| "forwarded span (M_addEvent name a t) = AddEvent span name a t"
| "forwarded span (M_setStatus status) = SetStatus span status"
| "forwarded span (M_updateName name) = UpdateName span name"
| "forwarded span (M_end endTime) = End span endTime"

fun is_end :: "mutation \<Rightarrow> bool" where
  "is_end (M_end endTime) = True"
| "is_end _ = False"

subsection \<open>Sequences of calls\<close>

text \<open>The calls a user of the module can make: the three public methods and the controller's eight.\<close>

datatype call =
    StartSpan string "Attributes option" "Context option"
  | AddCommonAttribute string string
  | GetSpanStack
  | Ctl_context SpanWrapper
  | Ctl_setAttribute SpanWrapper string string
  | Ctl_setAttributes SpanWrapper Attributes
  | Ctl_addEvent SpanWrapper string "(Attributes + TimeInput) option" "TimeInput option"
  | Ctl_setStatus SpanWrapper Status
  | Ctl_updateName SpanWrapper string
  | Ctl_end SpanWrapper "TimeInput option"
  | Ctl_isRecording SpanWrapper

fun perform :: "call \<Rightarrow> system \<Rightarrow> system" where
  "perform (StartSpan name attrs ctx) s = snd (startSpan name attrs ctx s)"
| "perform (AddCommonAttribute key val) s = addCommonAttribute key val s"
| "perform GetSpanStack s = snd (getSpanStack s)"
| "perform (Ctl_context w) s = snd (spanRef_context w s)"
| "perform (Ctl_setAttribute w key val) s = snd (spanRef_setAttribute w key val s)"
| "perform (Ctl_setAttributes w attrs) s = snd (spanRef_setAttributes w attrs s)"
| "perform (Ctl_addEvent w name a t) s = snd (spanRef_addEvent w name a t s)"
| "perform (Ctl_setStatus w status) s = snd (spanRef_setStatus w status s)"
| "perform (Ctl_updateName w name) s = snd (spanRef_updateName w name s)"
| "perform (Ctl_end w endTime) s = snd (spanRef_end w endTime s)"
| "perform (Ctl_isRecording w) s = snd (spanRef_isRecording w s)"

fun perform_all :: "call list \<Rightarrow> system \<Rightarrow> system" where
  "perform_all [] s = s"
| "perform_all (c # cs) s = perform_all cs (perform c s)"


text \<open>Consecutive \<^verbatim>\<open>startSpan\<close> calls, collecting the controllers returned.\<close>

fun startSpans ::
  "(string \<times> Attributes option \<times> Context option) list \<Rightarrow> system \<Rightarrow> SpanWrapper list \<times> system" where
  "startSpans [] s = ([], s)"
| "startSpans ((name, attrs, ctx) # rest) s =
     (let (w, s1) = startSpan name attrs ctx s;
          (ws, s2) = startSpans rest s1
      in (w # ws, s2))"

text \<open>Consecutive \<^verbatim>\<open>end()\<close> calls on the given controllers, without end times.\<close>

fun endSpans :: "SpanWrapper list \<Rightarrow> system \<Rightarrow> system" where
  "endSpans [] s = s"
| "endSpans (w # ws) s = endSpans ws (snd (spanRef_end w None s))"

text \<open>The span and the parent of every \<^verbatim>\<open>tracer.startSpan\<close> call in a log.\<close>

fun created :: "sdk_call list \<Rightarrow> (Span \<times> Span option) list" where
  "created [] = []"
| "created (TracerStartSpan name opts ctx span # log) = (span, parent opts) # created log"
| "created (_ # log) = created log"

text \<open>The span a call into the SDK acts on (for a creation, the span created).\<close>

fun target :: "sdk_call \<Rightarrow> Span" where
  "target (TracerStartSpan name opts ctx span) = span"
| "target (SetAttribute span key v) = span"
| "target (SetAttributes span attrs) = span"
| "target (AddEvent span name a t) = span"
| "target (SetStatus span status) = span"
| "target (UpdateName span name) = span"
| "target (End span endTime) = span"
| "target (IsRecording span) = span"
| "target (GetContext span) = span"

definition calls_on :: "Span \<Rightarrow> sdk_call list \<Rightarrow> sdk_call list" where
  "calls_on span log = filter (\<lambda>c. target c = span) log"

text \<open>
  Modelled from the spec: the attribute store of the SDK, which is outside this
  repository. Section 4.1 says that the last write wins when two writes set the same key:
  \<open>writes c span key\<close> is the value call \<open>c\<close> writes for \<open>key\<close> on \<open>span\<close>, and
  \<open>carried log span key\<close> is the value of the latest such write in \<open>log\<close>.
\<close>

fun writes :: "sdk_call \<Rightarrow> Span \<Rightarrow> string \<Rightarrow> AttributeValue option" where
  "writes (TracerStartSpan name opts ctx span') span key =
     (if span' = span then (case attributes opts of None \<Rightarrow> None | Some attrs \<Rightarrow> map_of attrs key)
      else None)"
| "writes (SetAttribute span' key' v) span key =
     (if span' = span \<and> key' = key then Some v else None)"
| "writes (SetAttributes span' attrs) span key =
     (if span' = span then map_of attrs key else None)"
| "writes _ span key = None"

definition carried :: "sdk_call list \<Rightarrow> Span \<Rightarrow> string \<Rightarrow> AttributeValue option" where
  "carried log span key =
     foldl (\<lambda>cur c. case writes c span key of None \<Rightarrow> cur | Some v \<Rightarrow> Some v) None log"

text \<open>The store is well formed when the manager's array has been allocated.\<close>

definition allocated :: "system \<Rightarrow> bool" where
  "allocated s = (spanStack (trace s) < next_ref s)"

text \<open>A tracer that hands out a new span object at every call, and the README's example.\<close>

definition counting_tracer :: Tracer where
  "counting_tracer log name opts ctx = length (created log)"

text \<open>
  A tracer that hands out one and the same span object at every call, as a tracer that
  records nothing does, and two spans started with it.
\<close>

definition shared_span_tracer :: Tracer where
  "shared_span_tracer log name opts ctx = 0"

definition started_twice :: system where
  "started_twice =
     snd (startSpan ''connect_db'' None None
       (snd (startSpan ''api_call'' None None (new_Trace shared_span_tracer []))))"

definition api_call :: system where
  "api_call = snd (startSpan ''api_call'' None None (new_Trace counting_tracer []))"

definition connect_db :: system where
  "connect_db = snd (startSpan ''connect_db'' None None api_call)"

section \<open>Properties\<close>

subsection \<open>The operations, one equation per case\<close>

lemma setAttribute_each_map:
  "setAttribute_each spans key val log = log @ map (\<lambda>span. SetAttribute span key (AString val)) spans"
  by (induction spans arbitrary: log) simp_all

lemma last_index: "xs \<noteq> [] \<Longrightarrow> xs ! (length xs - Suc 0) = last xs"
  by (simp add: last_conv_nth)

lemma take_butlast_all: "take (length xs - Suc 0) xs = butlast xs"
  by (simp add: butlast_conv_take)

lemma startSpan_sdk:
  "sdk (snd (startSpan name attrs ctx s)) =
     sdk s @ [TracerStartSpan name \<lparr>parent = (if stack s = [] then None else Some (last (stack s))), attributes = attrs\<rparr> ctx
                 (wrapped (fst (startSpan name attrs ctx s))),
              SetAttributes (wrapped (fst (startSpan name attrs ctx s)))
                 (as_attributes (commonAttributes (trace s)))]"
  by (simp add: startSpan_def stack_def Let_def last_index)

lemma startSpan_stack:
  "stack (snd (startSpan name attrs ctx s)) = stack s @ [wrapped (fst (startSpan name attrs ctx s))]"
  by (simp add: startSpan_def stack_def Let_def)

lemma startSpan_trace: "trace (snd (startSpan name attrs ctx s)) = trace s"
  by (simp add: startSpan_def Let_def)

lemma startSpan_wrapped:
  "wrapped (fst (startSpan name attrs ctx s)) =
     tracer (trace s) (sdk s) name
       \<lparr>parent = (if stack s = [] then None else Some (last (stack s))), attributes = attrs\<rparr> ctx"
  by (simp add: startSpan_def stack_def Let_def last_index)

lemma endSpan_empty:
  "stack s = [] \<Longrightarrow> endSpan span endTime s =
     s\<lparr>sdk := sdk s @ [SetAttribute span ''span_status'' (AString ''error_empty_stack''), End span endTime]\<rparr>"
  by (simp add: endSpan_def stack_def Let_def)

lemma endSpan_not_top:
  "stack s \<noteq> [] \<Longrightarrow> last (stack s) \<noteq> span \<Longrightarrow> endSpan span endTime s =
     s\<lparr>sdk := sdk s @ [SetAttribute span ''span_status'' (AString ''error_not_top''), End span endTime]\<rparr>"
  by (simp add: endSpan_def stack_def Let_def last_index)

lemma endSpan_top:
  "stack s \<noteq> [] \<Longrightarrow> last (stack s) = span \<Longrightarrow> endSpan span endTime s =
     s\<lparr>arrays := (arrays s)(next_ref s := butlast (stack s)),
       next_ref := Suc (next_ref s),
       trace := (trace s)\<lparr>spanStack := next_ref s\<rparr>,
       sdk := sdk s @ [End span endTime]\<rparr>"
  by (simp add: endSpan_def stack_def Let_def last_index take_butlast_all)

lemma endSpan_top_stack:
  "stack s \<noteq> [] \<Longrightarrow> last (stack s) = span \<Longrightarrow> stack (endSpan span endTime s) = butlast (stack s)"
  by (simp add: endSpan_top) (simp add: stack_def)


lemma endSpan_top_sdk:
  "stack s \<noteq> [] \<Longrightarrow> last (stack s) = span \<Longrightarrow>
     sdk (endSpan span endTime s) = sdk s @ [End span endTime]"
  by (simp add: endSpan_top)

lemma created_append: "created (xs @ ys) = created xs @ created ys"
  by (induction xs rule: created.induct) simp_all

lemma startSpan_created:
  "created (sdk (snd (startSpan name attrs ctx s))) =
     created (sdk s) @ [(wrapped (fst (startSpan name attrs ctx s)),
                         if stack s = [] then None else Some (last (stack s)))]"
  by (simp add: startSpan_sdk created_append)

lemma startSpans_stack_created:
  "stack (snd (startSpans reqs s)) = stack s @ map wrapped (fst (startSpans reqs s)) \<and>
   created (sdk (snd (startSpans reqs s))) =
     created (sdk s) @
     zip (map wrapped (fst (startSpans reqs s)))
         ((if stack s = [] then None else Some (last (stack s))) #
          map Some (butlast (map wrapped (fst (startSpans reqs s)))))"
proof (induction reqs arbitrary: s)
  case Nil
  show ?case by simp
next
  case (Cons req rest)
  obtain name attrs ctx where req: "req = (name, attrs, ctx)"
    by (cases req) auto
  define w where "w = fst (startSpan name attrs ctx s)"
  define s1 where "s1 = snd (startSpan name attrs ctx s)"
  define ws where "ws = fst (startSpans rest s1)"
  have unfold: "startSpans (req # rest) s = (w # ws, snd (startSpans rest s1))"
    by (simp add: req w_def s1_def ws_def split: prod.splits)
  have st1: "stack s1 = stack s @ [wrapped w]"
    by (simp add: s1_def w_def startSpan_stack)
  have cr1: "created (sdk s1) =
      created (sdk s) @ [(wrapped w, if stack s = [] then None else Some (last (stack s)))]"
    by (simp add: s1_def w_def startSpan_created)
  from Cons.IH [of s1]
  have ih_stack: "stack (snd (startSpans rest s1)) = stack s1 @ map wrapped ws"
    and ih_created: "created (sdk (snd (startSpans rest s1))) =
       created (sdk s1) @ zip (map wrapped ws) (Some (wrapped w) # map Some (butlast (map wrapped ws)))"
    by (simp_all add: ws_def st1)
  have "stack (snd (startSpans (req # rest) s)) = stack s @ map wrapped (w # ws)"
    by (simp add: unfold ih_stack st1)
  moreover have "created (sdk (snd (startSpans (req # rest) s))) =
     created (sdk s) @
     zip (map wrapped (w # ws))
         ((if stack s = [] then None else Some (last (stack s))) #
          map Some (butlast (map wrapped (w # ws))))"
    by (cases ws) (simp_all add: unfold ih_created cr1)
  ultimately show ?case
    by (simp add: unfold)
qed

lemma stack_new_Trace: "stack (new_Trace t log) = []"
  by (simp add: new_Trace_def stack_def)

subsection \<open>Parenting\<close>

text \<open>
  Claim C1. At each \<^verbatim>\<open>startSpan\<close> the parent passed to the tracer is the last element of
  the stack if the stack is non-empty, else none. Hence, when spans are started one after
  the other on a new manager with no end in between, the first is created without a
  parent and every later one with the span started just before it as its parent:
  \<open>created\<close> pairs each span created with the parent it was created with.
\<close>

theorem C1_parenting:
  "sdk (snd (startSpan name attrs ctx s)) =
     sdk s @
     [TracerStartSpan name
        \<lparr>parent = (if stack s = [] then None else Some (last (stack s))), attributes = attrs\<rparr>
        ctx (wrapped (fst (startSpan name attrs ctx s))),
      SetAttributes (wrapped (fst (startSpan name attrs ctx s)))
        (as_attributes (commonAttributes (trace s)))] \<and>
   created (sdk (snd (startSpans reqs (new_Trace t log)))) =
     created log @
     zip (map wrapped (fst (startSpans reqs (new_Trace t log))))
         (None # map Some (butlast (map wrapped (fst (startSpans reqs (new_Trace t log))))))"
  using startSpans_stack_created [of reqs "new_Trace t log"]
  by (simp add: startSpan_sdk stack_new_Trace) (simp add: new_Trace_def)

text \<open>The equations that evaluate the example states.\<close>

lemmas ex_defs = connect_db_def api_call_def startSpan_def new_Trace_def counting_tracer_def
  stack_def Let_def as_attributes_def

theorem C1_parenting_witness:
  "created (sdk (snd (startSpans [(''api_call'', None, None), (''connect_db'', None, None),
       (''cache_lookup'', None, None)] (new_Trace counting_tracer [])))) =
     [(0, None), (1, Some 0), (2, Some 1)]"
  using C1_parenting [of "''x''" None None "new_Trace counting_tracer []"
      "[(''api_call'', None, None), (''connect_db'', None, None), (''cache_lookup'', None, None)]"
      counting_tracer "[]"]
  by (simp add: ex_defs)

subsection \<open>Ending a span that is not the top\<close>

text \<open>
  Claim C2. When the stack is non-empty and the span being ended is not its last element,
  the span gets the attribute \<open>span_status = error_not_top\<close>, the SDK's \<open>end\<close> is still
  called on it, and the stack is left as it is: the field, the array it refers to and every
  other array are unchanged. In particular, with the stack \<open>[A, B]\<close>, ending \<open>A\<close> leaves
  \<open>[A, B]\<close>; ending \<open>B\<close> afterwards pops it without a tag and leaves \<open>[A]\<close>.
\<close>

theorem C2_out_of_order_end:
  "stack s \<noteq> [] \<and> last (stack s) \<noteq> span \<longrightarrow>
     sdk (endSpan span endTime s) =
       sdk s @ [SetAttribute span ''span_status'' (AString ''error_not_top''), End span endTime] \<and>
     stack (endSpan span endTime s) = stack s \<and>
     trace (endSpan span endTime s) = trace s \<and>
     arrays (endSpan span endTime s) = arrays s \<and>
     (stack s = [span, B] \<longrightarrow>
        stack (endSpan B endTime' (endSpan span endTime s)) = [span] \<and>
        sdk (endSpan B endTime' (endSpan span endTime s)) =
          sdk (endSpan span endTime s) @ [End B endTime'])"
proof (intro impI, elim conjE)
  assume ne: "stack s \<noteq> []" and top: "last (stack s) \<noteq> span"
  have eq: "endSpan span endTime s =
     s\<lparr>sdk := sdk s @ [SetAttribute span ''span_status'' (AString ''error_not_top''), End span endTime]\<rparr>"
    using ne top by (rule endSpan_not_top)
  have same: "stack (endSpan span endTime s) = stack s"
    by (simp add: eq stack_def)
  have "stack (endSpan B endTime' (endSpan span endTime s)) = [span] \<and>
        sdk (endSpan B endTime' (endSpan span endTime s)) =
          sdk (endSpan span endTime s) @ [End B endTime']" if AB: "stack s = [span, B]"
  proof -
    have "stack (endSpan span endTime s) \<noteq> []" "last (stack (endSpan span endTime s)) = B"
      by (simp_all add: same AB)
    then show ?thesis
      by (simp add: endSpan_top_stack endSpan_top_sdk same AB)
  qed
  then show "sdk (endSpan span endTime s) =
       sdk s @ [SetAttribute span ''span_status'' (AString ''error_not_top''), End span endTime] \<and>
     stack (endSpan span endTime s) = stack s \<and>
     trace (endSpan span endTime s) = trace s \<and>
     arrays (endSpan span endTime s) = arrays s \<and>
     (stack s = [span, B] \<longrightarrow>
        stack (endSpan B endTime' (endSpan span endTime s)) = [span] \<and>
        sdk (endSpan B endTime' (endSpan span endTime s)) =
          sdk (endSpan span endTime s) @ [End B endTime'])"
    using same by (simp add: eq)
qed

lemma stack_connect_db: "stack connect_db = [0, 1]"
  by (simp add: ex_defs)

theorem C2_out_of_order_end_witness:
  "stack connect_db = [0, 1] \<and>
   stack (endSpan 0 None connect_db) = [0, 1] \<and>
   sdk (endSpan 0 None connect_db) =
     sdk connect_db @ [SetAttribute 0 ''span_status'' (AString ''error_not_top''), End 0 None] \<and>
   stack (endSpan 1 None (endSpan 0 None connect_db)) = [0] \<and>
   sdk (endSpan 1 None (endSpan 0 None connect_db)) =
     sdk connect_db @ [SetAttribute 0 ''span_status'' (AString ''error_not_top''), End 0 None, End 1 None]"
  using C2_out_of_order_end [of connect_db 0 None 1 None]
  by (simp add: stack_connect_db)

subsection \<open>Ending on an empty stack, ending twice\<close>

lemma endSpan_sdk:
  "sdk (endSpan span endTime s) =
     sdk s @
     (if stack s = [] then [SetAttribute span ''span_status'' (AString ''error_empty_stack'')]
      else if last (stack s) \<noteq> span then [SetAttribute span ''span_status'' (AString ''error_not_top'')]
      else []) @
     [End span endTime]"
  by (simp add: endSpan_empty endSpan_not_top endSpan_top_sdk)

lemma endSpan_stack:
  "stack (endSpan span endTime s) =
     (if stack s \<noteq> [] \<and> last (stack s) = span then butlast (stack s) else stack s)"
proof (cases "stack s = []")
  case True
  then show ?thesis by (simp add: endSpan_empty) (simp add: stack_def)
next
  case False
  show ?thesis
  proof (cases "last (stack s) = span")
    case True
    with False show ?thesis by (simp add: endSpan_top_stack)
  next
    case ne: False
    have "stack (endSpan span endTime s) = stack s"
      using False ne by (simp add: endSpan_not_top) (simp add: stack_def)
    with False ne show ?thesis by simp
  qed
qed

lemma endSpan_absent:
  assumes "span \<notin> set (stack s)"
  shows "stack (endSpan span endTime s) = stack s"
proof -
  have "stack s = [] \<or> last (stack s) \<noteq> span"
    using assms last_in_set [of "stack s"] by auto
  then show ?thesis by (auto simp add: endSpan_stack)
qed

lemma distinct_last_butlast: "distinct xs \<Longrightarrow> xs \<noteq> [] \<Longrightarrow> last xs \<notin> set (butlast xs)"
  by (induction xs) (auto dest: in_set_butlastD)

lemma endSpan_twice_stack:
  assumes "distinct (stack s)"
  shows "stack (endSpan span endTime' (endSpan span endTime s)) = stack (endSpan span endTime s)"
proof (cases "stack s \<noteq> [] \<and> last (stack s) = span")
  case True
  then have "stack (endSpan span endTime s) = butlast (stack s)"
    by (simp add: endSpan_stack)
  moreover have "span \<notin> set (butlast (stack s))"
    using True assms distinct_last_butlast [of "stack s"] by auto
  ultimately show ?thesis
    by (simp add: endSpan_absent)
next
  case False
  then have "stack (endSpan span endTime s) = stack s"
    by (auto simp add: endSpan_stack)
  with False show ?thesis
    by (auto simp add: endSpan_stack)
qed

lemma endSpan_twice_sdk:
  assumes "distinct (stack s)"
  shows "sdk (endSpan span endTime' (endSpan span endTime s)) =
     sdk (endSpan span endTime s) @
     [SetAttribute span ''span_status''
        (AString (if stack (endSpan span endTime s) = [] then ''error_empty_stack''
                  else ''error_not_top'')),
      End span endTime']"
proof (cases "stack s \<noteq> [] \<and> last (stack s) = span")
  case True
  then have eq: "stack (endSpan span endTime s) = butlast (stack s)"
    by (simp add: endSpan_stack)
  have "span \<notin> set (butlast (stack s))"
    using True assms distinct_last_butlast [of "stack s"] by auto
  then have "butlast (stack s) = [] \<or> last (butlast (stack s)) \<noteq> span"
    using last_in_set [of "butlast (stack s)"] by auto
  then show ?thesis
    by (auto simp add: endSpan_sdk [of span endTime' "endSpan span endTime s"] eq)
next
  case False
  then have eq: "stack (endSpan span endTime s) = stack s"
    by (auto simp add: endSpan_stack)
  with False show ?thesis
    by (auto simp add: endSpan_sdk [of span endTime' "endSpan span endTime s"])
qed

lemma stack_started_twice: "stack started_twice = [0, 0]"
  by (simp add: started_twice_def startSpan_def new_Trace_def shared_span_tracer_def stack_def
      Let_def)

text \<open>
  Claim C3 as stated, that ending a span twice changes the stack only at the first valid
  call, fails when the tracer hands out the same span object twice: \<^verbatim>\<open>startSpan\<close> pushes
  whatever the tracer returns, so the object is in the stack twice, and the second
  \<^verbatim>\<open>end\<close> finds it on top again and pops again, without a tag.
\<close>

theorem C3_second_end_pops_again:
  "stack started_twice = [0, 0] \<and>
   stack (endSpan 0 None started_twice) = [0] \<and>
   stack (endSpan 0 None (endSpan 0 None started_twice)) = [] \<and>
   stack (endSpan 0 None (endSpan 0 None started_twice)) \<noteq> stack (endSpan 0 None started_twice) \<and>
   sdk (endSpan 0 None (endSpan 0 None started_twice)) =
     sdk started_twice @ [End 0 None, End 0 None]"
proof -
  have first: "stack (endSpan 0 None started_twice) = [0]"
    by (simp add: endSpan_stack stack_started_twice)
  have second: "stack (endSpan 0 None (endSpan 0 None started_twice)) = []"
    by (simp add: endSpan_stack [of 0 None "endSpan 0 None started_twice"] first)
  have log1: "sdk (endSpan 0 None started_twice) = sdk started_twice @ [End 0 None]"
    by (simp add: endSpan_sdk stack_started_twice)
  have log2: "sdk (endSpan 0 None (endSpan 0 None started_twice)) =
      sdk started_twice @ [End 0 None, End 0 None]"
    by (simp add: endSpan_sdk [of 0 None "endSpan 0 None started_twice"] first log1)
  from stack_started_twice first second log2 show ?thesis
    by simp
qed

text \<open>
  Claim C3, amended. \<^verbatim>\<open>endSpan\<close> has no failing branch: it is a total function of the
  state. Ending a span while the stack is empty only tags it with
  \<open>span_status = error_empty_stack\<close> and ends it. In each of the three cases the last
  call made is the SDK's \<open>end\<close> on the span with the end time given (\<open>None\<close> when
  omitted), after at most one tag. The stack changes only when the span is its last
  element; a span that is not in the stack leaves it unchanged. When the spans of the stack
  are distinct objects, ending the same span a second time leaves the stack as the first
  call left it, and the second call tags the span and ends it again.
\<close>

theorem C3_misuse_is_not_fatal:
  "(stack s = [] \<longrightarrow>
      endSpan span endTime s =
        s\<lparr>sdk := sdk s @ [SetAttribute span ''span_status'' (AString ''error_empty_stack''),
                          End span endTime]\<rparr>) \<and>
   sdk (endSpan span endTime s) =
     sdk s @
     (if stack s = [] then [SetAttribute span ''span_status'' (AString ''error_empty_stack'')]
      else if last (stack s) \<noteq> span then [SetAttribute span ''span_status'' (AString ''error_not_top'')]
      else []) @
     [End span endTime] \<and>
   stack (endSpan span endTime s) =
     (if stack s \<noteq> [] \<and> last (stack s) = span then butlast (stack s) else stack s) \<and>
   (span \<notin> set (stack s) \<longrightarrow> stack (endSpan span endTime s) = stack s) \<and>
   (distinct (stack s) \<longrightarrow>
      stack (endSpan span endTime' (endSpan span endTime s)) = stack (endSpan span endTime s) \<and>
      sdk (endSpan span endTime' (endSpan span endTime s)) =
        sdk (endSpan span endTime s) @
        [SetAttribute span ''span_status''
           (AString (if stack (endSpan span endTime s) = [] then ''error_empty_stack''
                     else ''error_not_top'')),
         End span endTime'])"
  using endSpan_empty [of s span endTime] endSpan_sdk [of span endTime s]
    endSpan_stack [of span endTime s] endSpan_absent [of span s endTime]
    endSpan_twice_stack [of s span endTime' endTime] endSpan_twice_sdk [of s span endTime' endTime]
  by blast

lemma stack_api_call: "stack api_call = [0]"
  by (simp add: ex_defs)

theorem C3_misuse_is_not_fatal_witness:
  "stack (new_Trace counting_tracer []) = [] \<and>
   sdk (endSpan 7 (Some 3) (new_Trace counting_tracer [])) =
     [SetAttribute 7 ''span_status'' (AString ''error_empty_stack''), End 7 (Some 3)] \<and>
   distinct (stack api_call) \<and>
   stack (endSpan 0 None api_call) = [] \<and>
   stack (endSpan 0 None (endSpan 0 None api_call)) = [] \<and>
   sdk (endSpan 0 None (endSpan 0 None api_call)) =
     sdk api_call @
     [End 0 None, SetAttribute 0 ''span_status'' (AString ''error_empty_stack''), End 0 None]"
  using C3_misuse_is_not_fatal [of "new_Trace counting_tracer []" 7 "Some 3" None]
    C3_misuse_is_not_fatal [of api_call 0 None None]
  by (simp add: stack_api_call stack_new_Trace) (simp add: new_Trace_def)

subsection \<open>Common attributes\<close>

lemma addCommonAttribute_sdk:
  "sdk (addCommonAttribute key val s) =
     sdk s @ map (\<lambda>span. SetAttribute span key (AString val)) (stack s)"
  by (simp add: addCommonAttribute_def stack_def setAttribute_each_map)

lemma addCommonAttribute_stack: "stack (addCommonAttribute key val s) = stack s"
  by (simp add: addCommonAttribute_def stack_def)

lemma insert_index_keys:
  "fst ` set (insert_index i key val props) = insert key (fst ` set props)"
proof (induction props)
  case Nil
  show ?case by simp
next
  case (Cons p props)
  obtain k v where p: "p = (k, v)" by (cases p)
  show ?case
  proof (cases "array_index k")
    case None
    then show ?thesis by (simp add: p)
  next
    case (Some j)
    then show ?thesis
      using Cons.IH by (cases "j < i") (simp_all add: p insert_commute)
  qed
qed

lemma insert_index_distinct:
  "key \<notin> fst ` set props \<Longrightarrow> distinct (map fst props) \<Longrightarrow>
     distinct (map fst (insert_index i key val props))"
proof (induction props)
  case Nil
  show ?case by simp
next
  case (Cons p props)
  obtain k v where p: "p = (k, v)" by (cases p)
  have fresh: "k \<noteq> key" "key \<notin> fst ` set props" "k \<notin> fst ` set props"
    and rest: "distinct (map fst props)"
    using Cons.prems by (auto simp add: p)
  have "k \<notin> fst ` set (insert_index i key val props)"
    using fresh by (simp add: insert_index_keys)
  then show ?case
    using Cons.IH [OF fresh(2) rest] fresh rest
    by (cases "array_index k") (auto simp add: p)
qed

lemma insert_index_map_of:
  "key \<notin> fst ` set props \<Longrightarrow> map_of (insert_index i key val props) = (map_of props)(key \<mapsto> val)"
proof (induction props)
  case Nil
  show ?case by simp
next
  case (Cons p props)
  obtain k v where p: "p = (k, v)" by (cases p)
  have ne: "k \<noteq> key" and rest: "key \<notin> fst ` set props"
    using Cons.prems by (auto simp add: p)
  show ?case
    using Cons.IH [OF rest] ne by (auto simp add: p fun_upd_twist split: option.splits)
qed

lemma map_of_None_keys: "map_of props key = None \<longleftrightarrow> key \<notin> fst ` set props"
  by (simp add: map_of_eq_None_iff)

lemma append_new_map_of:
  assumes "key \<notin> fst ` set props"
  shows "[key \<mapsto> val] ++ map_of props = (map_of props)(key \<mapsto> val)"
proof (rule ext)
  fix x
  have none: "map_of props key = None"
    using assms by (simp add: map_of_eq_None_iff)
  show "([key \<mapsto> val] ++ map_of props) x = ((map_of props)(key \<mapsto> val)) x"
    using none by (cases "map_of props x") (auto simp add: map_add_def)
qed

lemma assign_property_map_of:
  "key \<noteq> ''__proto__'' \<Longrightarrow> map_of (assign_property key val props) = (map_of props)(key \<mapsto> val)"
proof (cases "map_of props key")
  case None
  assume "key \<noteq> ''__proto__''"
  with None show ?thesis
    by (cases "array_index key")
       (simp_all add: assign_property_def append_new_map_of insert_index_map_of map_of_None_keys)
next
  case (Some v)
  assume "key \<noteq> ''__proto__''"
  with Some show ?thesis
    by (simp add: assign_property_def update_conv')
qed

lemma assign_property_proto: "assign_property ''__proto__'' val props = props"
  by (simp add: assign_property_def)

lemma assign_property_other:
  "key' \<noteq> key \<Longrightarrow> map_of (assign_property key val props) key' = map_of props key'"
  by (cases "key = ''__proto__''") (simp_all add: assign_property_proto assign_property_map_of)

lemma assign_property_used:
  "key \<in> fst ` set props \<Longrightarrow> map fst (assign_property key val props) = map fst props"
  by (auto simp add: assign_property_def update_keys map_of_None_keys)

lemma assign_property_distinct:
  "distinct (map fst props) \<Longrightarrow> distinct (map fst (assign_property key val props))"
proof (cases "map_of props key")
  case None
  assume "distinct (map fst props)"
  with None show ?thesis
    by (cases "array_index key")
       (simp_all add: assign_property_def insert_index_distinct map_of_None_keys)
next
  case (Some v)
  assume "distinct (map fst props)"
  with Some show ?thesis
    by (simp add: assign_property_def distinct_update)
qed

lemma addCommonAttribute_common:
  "commonAttributes (trace (addCommonAttribute key val s)) =
     assign_property key val (commonAttributes (trace s))"
  by (simp add: addCommonAttribute_def)

lemma calls_on_append: "calls_on span (xs @ ys) = calls_on span xs @ calls_on span ys"
  by (simp add: calls_on_def)

lemma calls_on_absent:
  "span \<notin> set spans \<Longrightarrow> calls_on span (map (\<lambda>sp. SetAttribute sp key v) spans) = []"
  by (induction spans) (auto simp add: calls_on_def)

lemma addCommonAttribute_calls_on:
  "span \<notin> set (stack s) \<Longrightarrow>
     calls_on span (sdk (addCommonAttribute key val s)) = calls_on span (sdk s)"
  by (simp add: addCommonAttribute_sdk calls_on_append calls_on_absent)

lemma carried_snoc:
  "carried (log @ [c]) span key =
     (case writes c span key of None \<Rightarrow> carried log span key | Some v \<Rightarrow> Some v)"
  unfolding carried_def by simp

lemma carried_setAttribute_each:
  "carried (log @ map (\<lambda>sp. SetAttribute sp key v) spans) span key =
     (if span \<in> set spans then Some v else carried log span key)"
proof (induction spans rule: rev_induct)
  case Nil
  show ?case by simp
next
  case (snoc sp spans)
  have "carried (log @ map (\<lambda>sp. SetAttribute sp key v) (spans @ [sp])) span key =
        carried ((log @ map (\<lambda>sp. SetAttribute sp key v) spans) @ [SetAttribute sp key v]) span key"
    by simp
  also have "\<dots> = (if sp = span then Some v
                   else carried (log @ map (\<lambda>sp. SetAttribute sp key v) spans) span key)"
    by (simp only: carried_snoc) simp
  finally show ?case
    using snoc.IH by auto
qed

lemma map_of_as_attributes:
  "map_of (as_attributes kvs) key = map_option AString (map_of kvs key)"
  by (induction kvs) (auto simp add: as_attributes_def)

lemma startSpan_carried:
  "carried (sdk (snd (startSpan name attrs ctx s))) (wrapped (fst (startSpan name attrs ctx s))) key =
     (case map_of (commonAttributes (trace s)) key of
        Some val \<Rightarrow> Some (AString val)
      | None \<Rightarrow>
          (case attrs of
             None \<Rightarrow> carried (sdk s) (wrapped (fst (startSpan name attrs ctx s))) key
           | Some initial \<Rightarrow>
               (case map_of initial key of
                  None \<Rightarrow> carried (sdk s) (wrapped (fst (startSpan name attrs ctx s))) key
                | Some v \<Rightarrow> Some v)))"
proof -
  define sp where "sp = wrapped (fst (startSpan name attrs ctx s))"
  define opts where
    "opts = \<lparr>parent = (if stack s = [] then None else Some (last (stack s))), attributes = attrs\<rparr>"
  have log: "sdk (snd (startSpan name attrs ctx s)) =
      (sdk s @ [TracerStartSpan name opts ctx sp]) @
      [SetAttributes sp (as_attributes (commonAttributes (trace s)))]"
    by (simp add: startSpan_sdk sp_def opts_def)
  have attrs: "attributes opts = attrs"
    by (simp add: opts_def)
  show ?thesis
    unfolding sp_def [symmetric] log
    by (simp only: carried_snoc)
       (simp add: map_of_as_attributes attrs split: option.splits)
qed






text \<open>
  Claim C5. \<^verbatim>\<open>startSpan\<close> makes two calls: the tracer creates the span with the caller's
  initial attributes, then the common attributes are set on it. The initial attributes are
  therefore not final when the span is created: with the last write winning, the span
  carries the common value for every key the common attributes have, and the caller's
  initial value only for the other keys.
\<close>

theorem C5_common_over_initial:
  "sdk (snd (startSpan name attrs ctx s)) =
     sdk s @
     [TracerStartSpan name
        \<lparr>parent = (if stack s = [] then None else Some (last (stack s))), attributes = attrs\<rparr>
        ctx (wrapped (fst (startSpan name attrs ctx s))),
      SetAttributes (wrapped (fst (startSpan name attrs ctx s)))
        (as_attributes (commonAttributes (trace s)))] \<and>
   carried (sdk (snd (startSpan name attrs ctx s))) (wrapped (fst (startSpan name attrs ctx s))) K =
     (case map_of (commonAttributes (trace s)) K of
        Some val \<Rightarrow> Some (AString val)
      | None \<Rightarrow>
          (case attrs of
             None \<Rightarrow> carried (sdk s) (wrapped (fst (startSpan name attrs ctx s))) K
           | Some initial \<Rightarrow>
               (case map_of initial K of
                  None \<Rightarrow> carried (sdk s) (wrapped (fst (startSpan name attrs ctx s))) K
                | Some v \<Rightarrow> Some v)))"
  by (rule conjI [OF startSpan_sdk startSpan_carried])


theorem C5_common_over_initial_witness:
  "carried
     (sdk (snd (startSpan ''api_call''
        (Some [(''user_id'', AString ''caller''), (''route'', AString ''/users'')]) None
        (addCommonAttribute ''user_id'' ''42'' (new_Trace counting_tracer [])))))
     0 ''user_id'' = Some (AString ''42'') \<and>
   carried
     (sdk (snd (startSpan ''api_call''
        (Some [(''user_id'', AString ''caller''), (''route'', AString ''/users'')]) None
        (addCommonAttribute ''user_id'' ''42'' (new_Trace counting_tracer [])))))
     0 ''route'' = Some (AString ''/users'')"
proof -
  define s where "s = addCommonAttribute ''user_id'' ''42'' (new_Trace counting_tracer [])"
  define attrs where "attrs = Some [(''user_id'', AString ''caller''), (''route'', AString ''/users'')]"
  have sp: "wrapped (fst (startSpan ''api_call'' attrs None s)) = 0"
    by (simp add: s_def startSpan_def addCommonAttribute_def new_Trace_def counting_tracer_def Let_def)
  have common: "commonAttributes (trace s) = [(''user_id'', ''42'')]"
    by (simp add: s_def addCommonAttribute_def new_Trace_def assign_property_def digit_def)
  note common_key = C5_common_over_initial
      [of "''api_call''" attrs None s "''user_id''", unfolded sp common, THEN conjunct2]
  note other_key = C5_common_over_initial
      [of "''api_call''" attrs None s "''route''", unfolded sp common, THEN conjunct2]
  have "carried (sdk (snd (startSpan ''api_call'' attrs None s))) 0 ''user_id'' = Some (AString ''42'')"
    using common_key by simp
  moreover
  have "carried (sdk (snd (startSpan ''api_call'' attrs None s))) 0 ''route'' = Some (AString ''/users'')"
    using other_key by (simp add: attrs_def)
  ultimately show ?thesis
    by (simp add: attrs_def s_def)
qed

subsection \<open>Popping in reverse order\<close>

lemma spanRef_end_state: "snd (spanRef_end w endTime s) = endSpan (wrapped w) endTime s"
  by (simp add: spanRef_end_def)

lemma endSpans_rev:
  "stack s = st @ map wrapped ws \<Longrightarrow>
     stack (endSpans (rev ws) s) = st \<and>
     sdk (endSpans (rev ws) s) = sdk s @ map (\<lambda>w. End (wrapped w) None) (rev ws)"
proof (induction ws arbitrary: s rule: rev_induct)
  case Nil
  then show ?case by simp
next
  case (snoc w ws)
  define s1 where "s1 = endSpan (wrapped w) None s"
  have top: "stack s \<noteq> []" "last (stack s) = wrapped w"
    using snoc.prems by simp_all
  have "butlast (stack s) = st @ map wrapped ws"
    using snoc.prems by (simp add: butlast_append)
  then have st1: "stack s1 = st @ map wrapped ws"
    using top by (simp add: s1_def endSpan_top_stack)
  have log1: "sdk s1 = sdk s @ [End (wrapped w) None]"
    using top by (simp add: s1_def endSpan_top_sdk)
  have "endSpans (rev (ws @ [w])) s = endSpans (rev ws) s1"
    by (simp add: s1_def spanRef_end_state)
  then show ?case
    using snoc.IH [OF st1] by (simp add: log1)
qed

lemma startSpans_length: "length (fst (startSpans reqs s)) = length reqs"
proof (induction reqs arbitrary: s)
  case Nil
  show ?case by simp
next
  case (Cons req rest)
  obtain name attrs ctx where req: "req = (name, attrs, ctx)"
    by (cases req) auto
  show ?case
    using Cons.IH [of "snd (startSpan name attrs ctx s)"]
    by (simp add: req case_prod_beta)
qed

lemma endSpans_take_rev:
  assumes "stack s = map wrapped ws"
  shows "stack (endSpans (take k (rev ws)) s) = take (length ws - k) (map wrapped ws)"
proof -
  have "stack s = take (length ws - k) (map wrapped ws) @ map wrapped (drop (length ws - k) ws)"
    using assms by (simp add: take_map [symmetric] drop_map [symmetric])
  then have "stack (endSpans (rev (drop (length ws - k) ws)) s) = take (length ws - k) (map wrapped ws)"
    using endSpans_rev by blast
  then show ?thesis
    by (simp add: take_rev)
qed

text \<open>
  Claim C6. Ending the span that is the last element of the stack removes exactly that
  element: the stack is one shorter, what was removed is the span ended, and the only
  call made is the SDK's \<open>end\<close>. When spans are started one after the other on a new
  manager and then ended in the reverse order, the stack after \<open>k\<close> ends is the first
  \<open>n - k\<close> spans started, so the new top is always the span started just before the
  one ended; none of these ends is tagged.
\<close>

theorem C6_lifo_pop:
  "(stack s = st @ [span] \<longrightarrow>
      stack (endSpan span endTime s) = st \<and>
      Suc (length (stack (endSpan span endTime s))) = length (stack s) \<and>
      sdk (endSpan span endTime s) = sdk s @ [End span endTime]) \<and>
   stack (endSpans (take k (rev (fst (startSpans reqs (new_Trace t log)))))
            (snd (startSpans reqs (new_Trace t log)))) =
     take (length reqs - k) (map wrapped (fst (startSpans reqs (new_Trace t log)))) \<and>
   sdk (endSpans (rev (fst (startSpans reqs (new_Trace t log))))
            (snd (startSpans reqs (new_Trace t log)))) =
     sdk (snd (startSpans reqs (new_Trace t log))) @
     map (\<lambda>w. End (wrapped w) None) (rev (fst (startSpans reqs (new_Trace t log))))"
proof -
  have single: "stack s = st @ [span] \<longrightarrow>
      stack (endSpan span endTime s) = st \<and>
      Suc (length (stack (endSpan span endTime s))) = length (stack s) \<and>
      sdk (endSpan span endTime s) = sdk s @ [End span endTime]"
    by (simp add: endSpan_top_stack endSpan_top_sdk)
  define ws where "ws = fst (startSpans reqs (new_Trace t log))"
  define s' where "s' = snd (startSpans reqs (new_Trace t log))"
  have full: "stack s' = map wrapped ws"
    using startSpans_stack_created [of reqs "new_Trace t log"]
    by (simp add: s'_def ws_def stack_new_Trace)
  have len: "length ws = length reqs"
    by (simp add: ws_def startSpans_length)
  have "stack (endSpans (take k (rev ws)) s') = take (length reqs - k) (map wrapped ws)"
    using endSpans_take_rev [OF full, of k] by (simp add: len)
  moreover have "sdk (endSpans (rev ws) s') = sdk s' @ map (\<lambda>w. End (wrapped w) None) (rev ws)"
    using endSpans_rev [of s' "[]" ws] full by simp
  ultimately show ?thesis
    using single unfolding ws_def s'_def by blast
qed

theorem C6_lifo_pop_witness:
  "stack connect_db = [0] @ [1] \<and>
   stack (endSpan 1 None connect_db) = [0] \<and>
   stack (endSpans
            (take 1 (rev (fst (startSpans [(''api_call'', None, None), (''connect_db'', None, None),
               (''cache_lookup'', None, None)] (new_Trace counting_tracer [])))))
            (snd (startSpans [(''api_call'', None, None), (''connect_db'', None, None),
               (''cache_lookup'', None, None)] (new_Trace counting_tracer [])))) = [0, 1] \<and>
   stack (endSpans
            (take 2 (rev (fst (startSpans [(''api_call'', None, None), (''connect_db'', None, None),
               (''cache_lookup'', None, None)] (new_Trace counting_tracer [])))))
            (snd (startSpans [(''api_call'', None, None), (''connect_db'', None, None),
               (''cache_lookup'', None, None)] (new_Trace counting_tracer [])))) = [0]"
proof -
  define reqs :: "(string \<times> Attributes option \<times> Context option) list" where
    "reqs = [(''api_call'', None, None), (''connect_db'', None, None), (''cache_lookup'', None, None)]"
  have spans: "map wrapped (fst (startSpans reqs (new_Trace counting_tracer []))) = [0, 1, 2]"
    by (simp add: reqs_def ex_defs)
  have st: "stack connect_db = [0] @ [1]"
    by (simp add: stack_connect_db)
  note single = C6_lifo_pop [of connect_db "[0]" 1 None 0 "[]" counting_tracer "[]", THEN conjunct1]
  note one = C6_lifo_pop [of connect_db "[0]" 1 None 1 reqs counting_tracer "[]",
      THEN conjunct2, THEN conjunct1, unfolded spans]
  note two = C6_lifo_pop [of connect_db "[0]" 1 None 2 reqs counting_tracer "[]",
      THEN conjunct2, THEN conjunct1, unfolded spans]
  have "stack (endSpan 1 None connect_db) = [0]"
    using single st by blast
  moreover have "stack (endSpans (take 1 (rev (fst (startSpans reqs (new_Trace counting_tracer [])))))
            (snd (startSpans reqs (new_Trace counting_tracer [])))) = [0, 1]"
    using one by (simp add: reqs_def)
  moreover have "stack (endSpans (take 2 (rev (fst (startSpans reqs (new_Trace counting_tracer [])))))
            (snd (startSpans reqs (new_Trace counting_tracer [])))) = [0]"
    using two by (simp add: reqs_def)
  ultimately show ?thesis
    using st unfolding reqs_def by blast
qed

subsection \<open>Storing a key again\<close>

lemma perform_commonAttributes:
  "commonAttributes (trace (perform c s)) =
     (case c of
        AddCommonAttribute key val \<Rightarrow> assign_property key val (commonAttributes (trace s))
      | _ \<Rightarrow> commonAttributes (trace s))"
proof (cases c)
  case (Ctl_end w endTime)
  then show ?thesis
    by (simp add: spanRef_end_def endSpan_def Let_def)
qed (simp_all add: startSpan_trace addCommonAttribute_common getSpanStack_def spanRef_context_def
      spanRef_setAttribute_def spanRef_setAttributes_def spanRef_addEvent_def spanRef_setStatus_def
      spanRef_updateName_def spanRef_isRecording_def)

lemma perform_distinct_keys:
  "distinct (map fst (commonAttributes (trace s))) \<Longrightarrow>
     distinct (map fst (commonAttributes (trace (perform c s))))"
  using perform_commonAttributes [of c s]
  by (cases c) (simp_all add: assign_property_distinct)

lemma perform_all_distinct_keys:
  "distinct (map fst (commonAttributes (trace s))) \<Longrightarrow>
     distinct (map fst (commonAttributes (trace (perform_all cs s))))"
  by (induction cs arbitrary: s) (simp_all add: perform_distinct_keys)

text \<open>
  Claim C7 as stated fails in two ways. A span ended while it was not the top stays in the
  stack, so a later \<^verbatim>\<open>addCommonAttribute\<close> sets the attribute on a span that has already
  been ended. And under the key \<^verbatim>\<open>__proto__\<close> nothing is stored, so there is no stored
  value to replace.
\<close>

theorem C7_ended_span_touched:
  "last (sdk (endSpan 0 None (addCommonAttribute ''user_id'' ''42'' connect_db))) = End 0 None \<and>
   sdk (addCommonAttribute ''user_id'' ''43''
          (endSpan 0 None (addCommonAttribute ''user_id'' ''42'' connect_db))) =
     sdk (endSpan 0 None (addCommonAttribute ''user_id'' ''42'' connect_db)) @
     [SetAttribute 0 ''user_id'' (AString ''43''), SetAttribute 1 ''user_id'' (AString ''43'')] \<and>
   commonAttributes (trace (addCommonAttribute ''__proto__'' ''43''
      (addCommonAttribute ''__proto__'' ''42'' connect_db))) = []"
proof -
  define s where "s = addCommonAttribute ''user_id'' ''42'' connect_db"
  have st: "stack s = [0, 1]"
    by (simp add: s_def addCommonAttribute_stack stack_connect_db)
  have stuck: "stack (endSpan 0 None s) = [0, 1]"
    by (simp add: endSpan_stack st)
  have ended: "last (sdk (endSpan 0 None s)) = End 0 None"
    by (simp add: endSpan_sdk)
  have touched: "sdk (addCommonAttribute ''user_id'' ''43'' (endSpan 0 None s)) =
      sdk (endSpan 0 None s) @
      [SetAttribute 0 ''user_id'' (AString ''43''), SetAttribute 1 ''user_id'' (AString ''43'')]"
    by (simp add: addCommonAttribute_sdk stuck)
  have unstored: "commonAttributes (trace (addCommonAttribute ''__proto__'' ''43''
      (addCommonAttribute ''__proto__'' ''42'' connect_db))) = []"
    by (simp add: addCommonAttribute_common assign_property_proto ex_defs)
  from ended touched unstored show ?thesis
    unfolding s_def by blast
qed

text \<open>
  Claim C7, amended. \<^verbatim>\<open>addCommonAttribute(K, V)\<close> with \<open>K\<close> other than \<^verbatim>\<open>__proto__\<close>
  stores \<open>V\<close> under \<open>K\<close> in \<open>commonAttributes\<close>. When \<open>K\<close> was stored before, the keys
  of the object are the same as before (the value is replaced, no entry is added); the
  values of the other keys are untouched, and the keys of the object are distinct in every
  state a new manager can reach. For every \<open>K\<close> the new value is set again on every span
  of the stack, which then carries it, and a span that is not in the stack receives no
  call. A span that was ended while it was in the stack but not its top is still in the
  stack and does receive the call.
\<close>

theorem C7_repeated_key_overwrite:
  "commonAttributes (trace (addCommonAttribute K V s)) =
     assign_property K V (commonAttributes (trace s)) \<and>
   (K \<noteq> ''__proto__'' \<longrightarrow>
      map_of (commonAttributes (trace (addCommonAttribute K V s))) K = Some V) \<and>
   (K \<in> fst ` set (commonAttributes (trace s)) \<longrightarrow>
      map fst (commonAttributes (trace (addCommonAttribute K V s))) =
        map fst (commonAttributes (trace s))) \<and>
   (K' \<noteq> K \<longrightarrow>
      map_of (commonAttributes (trace (addCommonAttribute K V s))) K' =
        map_of (commonAttributes (trace s)) K') \<and>
   distinct (map fst (commonAttributes (trace (perform_all cs (new_Trace t log))))) \<and>
   sdk (addCommonAttribute K V s) =
     sdk s @ map (\<lambda>span. SetAttribute span K (AString V)) (stack s) \<and>
   (span \<in> set (stack s) \<longrightarrow>
      carried (sdk (addCommonAttribute K V s)) span K = Some (AString V)) \<and>
   (span \<notin> set (stack s) \<longrightarrow>
      calls_on span (sdk (addCommonAttribute K V s)) = calls_on span (sdk s)) \<and>
   (span \<in> set (stack s) \<and> last (stack s) \<noteq> span \<longrightarrow>
      last (sdk (endSpan span endTime s)) = End span endTime \<and>
      span \<in> set (stack (endSpan span endTime s)) \<and>
      SetAttribute span K (AString V) \<in>
        set (sdk (addCommonAttribute K V (endSpan span endTime s))))"
proof -
  have stored: "K \<noteq> ''__proto__'' \<longrightarrow>
      map_of (commonAttributes (trace (addCommonAttribute K V s))) K = Some V"
    by (simp add: addCommonAttribute_common assign_property_map_of)
  have keys: "K \<in> fst ` set (commonAttributes (trace s)) \<longrightarrow>
      map fst (commonAttributes (trace (addCommonAttribute K V s))) =
        map fst (commonAttributes (trace s))"
    by (simp add: addCommonAttribute_common assign_property_used)
  have others: "K' \<noteq> K \<longrightarrow>
      map_of (commonAttributes (trace (addCommonAttribute K V s))) K' =
        map_of (commonAttributes (trace s)) K'"
    by (simp add: addCommonAttribute_common assign_property_other)
  have "distinct (map fst (commonAttributes (trace (new_Trace t log))))"
    by (simp add: new_Trace_def)
  then have unique: "distinct (map fst (commonAttributes (trace (perform_all cs (new_Trace t log)))))"
    by (rule perform_all_distinct_keys)
  have open_spans: "span \<in> set (stack s) \<longrightarrow>
      carried (sdk (addCommonAttribute K V s)) span K = Some (AString V)"
    by (simp add: addCommonAttribute_sdk carried_setAttribute_each)
  have closed: "span \<notin> set (stack s) \<longrightarrow>
      calls_on span (sdk (addCommonAttribute K V s)) = calls_on span (sdk s)"
    by (simp add: addCommonAttribute_calls_on)
  have stuck: "span \<in> set (stack s) \<and> last (stack s) \<noteq> span \<longrightarrow>
      last (sdk (endSpan span endTime s)) = End span endTime \<and>
      span \<in> set (stack (endSpan span endTime s)) \<and>
      SetAttribute span K (AString V) \<in>
        set (sdk (addCommonAttribute K V (endSpan span endTime s)))"
  proof
    assume a: "span \<in> set (stack s) \<and> last (stack s) \<noteq> span"
    then have same: "stack (endSpan span endTime s) = stack s"
      by (simp add: endSpan_stack)
    have "last (sdk (endSpan span endTime s)) = End span endTime"
      by (simp add: endSpan_sdk)
    moreover have "span \<in> set (stack (endSpan span endTime s))"
      using a by (simp add: same)
    moreover have "SetAttribute span K (AString V) \<in>
        set (sdk (addCommonAttribute K V (endSpan span endTime s)))"
      using a by (simp add: addCommonAttribute_sdk same)
    ultimately show "last (sdk (endSpan span endTime s)) = End span endTime \<and>
      span \<in> set (stack (endSpan span endTime s)) \<and>
      SetAttribute span K (AString V) \<in>
        set (sdk (addCommonAttribute K V (endSpan span endTime s)))"
      by blast
  qed
  from addCommonAttribute_common [of K V s] stored keys others unique
    addCommonAttribute_sdk [of K V s] open_spans closed stuck
  show ?thesis by blast
qed

theorem C7_repeated_key_overwrite_witness:
  "commonAttributes (trace (addCommonAttribute ''user_id'' ''43''
      (addCommonAttribute ''user_id'' ''42'' connect_db))) = [(''user_id'', ''43'')] \<and>
   sdk (addCommonAttribute ''user_id'' ''43'' (addCommonAttribute ''user_id'' ''42'' connect_db)) =
     sdk (addCommonAttribute ''user_id'' ''42'' connect_db) @
     [SetAttribute 0 ''user_id'' (AString ''43''), SetAttribute 1 ''user_id'' (AString ''43'')] \<and>
   carried (sdk (addCommonAttribute ''user_id'' ''43''
      (addCommonAttribute ''user_id'' ''42'' connect_db))) 1 ''user_id'' = Some (AString ''43'') \<and>
   calls_on 5 (sdk (addCommonAttribute ''user_id'' ''43''
      (addCommonAttribute ''user_id'' ''42'' connect_db))) =
     calls_on 5 (sdk (addCommonAttribute ''user_id'' ''42'' connect_db)) \<and>
   SetAttribute 0 ''user_id'' (AString ''43'') \<in>
     set (sdk (addCommonAttribute ''user_id'' ''43''
       (endSpan 0 None (addCommonAttribute ''user_id'' ''42'' connect_db))))"
proof -
  define s where "s = addCommonAttribute ''user_id'' ''42'' connect_db"
  have st: "stack s = [0, 1]"
    by (simp add: s_def addCommonAttribute_stack stack_connect_db)
  have common: "commonAttributes (trace s) = [(''user_id'', ''42'')]"
    by (simp add: s_def addCommonAttribute_def connect_db_def api_call_def startSpan_def
        new_Trace_def Let_def assign_property_def digit_def)
  note open_span = C7_repeated_key_overwrite
      [of "''user_id''" "''43''" s "''route''" "[]" counting_tracer "[]" 1 None,
       unfolded st common list.map]
  note closed_span = C7_repeated_key_overwrite
      [of "''user_id''" "''43''" s "''route''" "[]" counting_tracer "[]" 5 None,
       unfolded st common list.map]
  note stuck_span = C7_repeated_key_overwrite
      [of "''user_id''" "''43''" s "''route''" "[]" counting_tracer "[]" 0 None,
       unfolded st common list.map]
  have key: "''user_id'' \<noteq> ''__proto__''"
    by simp
  have used: "''user_id'' \<in> fst ` set [(''user_id'', ''42'')]"
    by simp
  have in_stack: "(1::nat) \<in> set [0, 1]"
    by simp
  have absent: "(5::nat) \<notin> set [0, 1]"
    by simp
  have not_top: "(0::nat) \<in> set [0, 1] \<and> last [0, 1] \<noteq> (0::nat)"
    by simp
  have upd: "assign_property ''user_id'' ''43'' [(''user_id'', ''42'')] = [(''user_id'', ''43'')]"
    by (simp add: assign_property_def)
  from open_span closed_span stuck_span key used in_stack absent not_top
  have "commonAttributes (trace (addCommonAttribute ''user_id'' ''43'' s)) = [(''user_id'', ''43'')] \<and>
   sdk (addCommonAttribute ''user_id'' ''43'' s) =
     sdk s @ [SetAttribute 0 ''user_id'' (AString ''43''), SetAttribute 1 ''user_id'' (AString ''43'')] \<and>
   carried (sdk (addCommonAttribute ''user_id'' ''43'' s)) 1 ''user_id'' = Some (AString ''43'') \<and>
   calls_on 5 (sdk (addCommonAttribute ''user_id'' ''43'' s)) = calls_on 5 (sdk s) \<and>
   SetAttribute 0 ''user_id'' (AString ''43'') \<in>
     set (sdk (addCommonAttribute ''user_id'' ''43'' (endSpan 0 None s)))"
    unfolding upd by blast
  then show ?thesis
    unfolding s_def .
qed

subsection \<open>The copy returned by \<^verbatim>\<open>getSpanStack\<close>\<close>

lemma getSpanStack_stack: "stack (snd (getSpanStack s)) = stack s"
  by (simp add: getSpanStack_def stack_def)

lemma allocated_new_Trace: "allocated (new_Trace t log)"
  by (simp add: allocated_def new_Trace_def)

lemma perform_allocated: "allocated s \<Longrightarrow> allocated (perform c s)"
proof (cases c)
  case (Ctl_end w endTime)
  assume "allocated s"
  with Ctl_end show ?thesis
    by (simp add: allocated_def spanRef_end_def endSpan_def Let_def)
qed (simp_all add: allocated_def startSpan_def addCommonAttribute_def getSpanStack_def Let_def
      spanRef_context_def spanRef_setAttribute_def spanRef_setAttributes_def spanRef_addEvent_def
      spanRef_setStatus_def spanRef_updateName_def spanRef_isRecording_def)

lemma perform_all_allocated: "allocated s \<Longrightarrow> allocated (perform_all cs s)"
  by (induction cs arbitrary: s) (simp_all add: perform_allocated)

text \<open>A reference handed out earlier never becomes the manager's array.\<close>

lemma perform_keeps_apart:
  assumes "r < next_ref s" "spanStack (trace s) \<noteq> r"
  shows "r < next_ref (perform c s) \<and> spanStack (trace (perform c s)) \<noteq> r"
proof (cases c)
  case (Ctl_end w endTime)
  with assms show ?thesis
    by (auto simp add: spanRef_end_def endSpan_def Let_def)
qed (use assms in \<open>simp_all add: startSpan_def addCommonAttribute_def getSpanStack_def Let_def
      spanRef_context_def spanRef_setAttribute_def spanRef_setAttributes_def spanRef_addEvent_def
      spanRef_setStatus_def spanRef_updateName_def spanRef_isRecording_def\<close>)

lemma perform_all_keeps_apart:
  "r < next_ref s \<Longrightarrow> spanStack (trace s) \<noteq> r \<Longrightarrow>
     spanStack (trace (perform_all cs s)) \<noteq> r"
proof (induction cs arbitrary: s)
  case Nil
  then show ?case by simp
next
  case (Cons c cs)
  from perform_keeps_apart [OF Cons.prems, of c] Cons.IH [of "perform c s"]
  show ?case by simp
qed

lemma write_elsewhere:
  "spanStack (trace s) \<noteq> r \<Longrightarrow> stack (s\<lparr>arrays := (arrays s)(r := xs)\<rparr>) = stack s"
  by (simp add: stack_def)

text \<open>
  Claim C8. In every state a new manager can reach, the manager's array is allocated. In
  such a state \<^verbatim>\<open>getSpanStack()\<close> returns a reference to a new array that holds the
  elements of the stack in the same order and is not the array the manager uses; the
  manager's fields, its stack, the SDK log and every other array are unchanged by the call.
  Writing anything to the returned array, at once or after any further calls on the
  manager, leaves the manager's stack as it is.
\<close>

theorem C8_snapshot_isolation:
  "allocated (perform_all cs (new_Trace t log)) \<and>
   (allocated s \<longrightarrow>
      arrays (snd (getSpanStack s)) (fst (getSpanStack s)) = stack s \<and>
      fst (getSpanStack s) \<noteq> spanStack (trace (snd (getSpanStack s))) \<and>
      trace (snd (getSpanStack s)) = trace s \<and>
      stack (snd (getSpanStack s)) = stack s \<and>
      sdk (snd (getSpanStack s)) = sdk s \<and>
      (\<forall>r. r \<noteq> fst (getSpanStack s) \<longrightarrow> arrays (snd (getSpanStack s)) r = arrays s r) \<and>
      stack ((snd (getSpanStack s))
               \<lparr>arrays := (arrays (snd (getSpanStack s)))(fst (getSpanStack s) := xs)\<rparr>) = stack s \<and>
      stack ((perform_all cs' (snd (getSpanStack s)))
               \<lparr>arrays := (arrays (perform_all cs' (snd (getSpanStack s))))
                   (fst (getSpanStack s) := xs)\<rparr>) =
        stack (perform_all cs' (snd (getSpanStack s))))"
proof (intro conjI impI)
  show "allocated (perform_all cs (new_Trace t log))"
    by (simp add: perform_all_allocated allocated_new_Trace)
next
  assume a: "allocated s"
  define r where "r = fst (getSpanStack s)"
  define s' where "s' = snd (getSpanStack s)"
  have r: "r = next_ref s"
    by (simp add: r_def getSpanStack_def)
  have below: "r < next_ref s'"
    by (simp add: r s'_def getSpanStack_def)
  have apart: "spanStack (trace s') \<noteq> r"
    using a by (simp add: r s'_def getSpanStack_def allocated_def)
  show "arrays s' r = stack s"
    by (simp add: r s'_def getSpanStack_def stack_def)
  show "r \<noteq> spanStack (trace s')"
    using apart by simp
  show "trace s' = trace s"
    by (simp add: s'_def getSpanStack_def)
  show "stack s' = stack s"
    by (simp add: s'_def getSpanStack_stack)
  show "sdk s' = sdk s"
    by (simp add: s'_def getSpanStack_def)
  show "\<forall>r'. r' \<noteq> r \<longrightarrow> arrays s' r' = arrays s r'"
    by (simp add: r s'_def getSpanStack_def)
  show "stack (s'\<lparr>arrays := (arrays s')(r := xs)\<rparr>) = stack s"
    using apart by (simp add: write_elsewhere s'_def getSpanStack_stack)
  show "stack ((perform_all cs' s')\<lparr>arrays := (arrays (perform_all cs' s'))(r := xs)\<rparr>) =
        stack (perform_all cs' s')"
    using perform_all_keeps_apart [OF below apart, of cs'] by (simp add: write_elsewhere)
qed

theorem C8_snapshot_isolation_witness:
  "allocated connect_db \<and>
   fst (getSpanStack connect_db) = 3 \<and>
   arrays (snd (getSpanStack connect_db)) 3 = [0, 1] \<and>
   spanStack (trace (snd (getSpanStack connect_db))) = 0 \<and>
   stack ((snd (getSpanStack connect_db))
            \<lparr>arrays := (arrays (snd (getSpanStack connect_db)))(3 := [])\<rparr>) = [0, 1]"
proof -
  have conn: "connect_db =
      perform_all [StartSpan ''api_call'' None None, StartSpan ''connect_db'' None None]
        (new_Trace counting_tracer [])"
    by (simp add: connect_db_def api_call_def)
  have ref: "fst (getSpanStack connect_db) = 3"
    by (simp add: getSpanStack_def ex_defs)
  have field: "spanStack (trace connect_db) = 0"
    by (simp add: ex_defs)
  note reach = C8_snapshot_isolation
      [of "[StartSpan ''api_call'' None None, StartSpan ''connect_db'' None None]"
          counting_tracer "[]" connect_db "[]" "[]", THEN conjunct1, folded conn]
  note copy = C8_snapshot_isolation
      [of "[]" counting_tracer "[]" connect_db "[]" "[]", THEN conjunct2, rule_format, OF reach,
       unfolded ref stack_connect_db]
  from reach ref copy field show ?thesis
    by simp
qed

subsection \<open>What the controller's methods return\<close>

lemma invoke_not_end:
  "\<not> is_end m \<Longrightarrow> invoke w m s = (Returned_spanRef w, s\<lparr>sdk := sdk s @ [forwarded (wrapped w) m]\<rparr>)"
  by (cases m)
     (simp_all add: spanRef_setAttribute_def spanRef_setAttributes_def spanRef_addEvent_def
        spanRef_setStatus_def spanRef_updateName_def)

lemma chain_not_end:
  "\<forall>m\<in>set ms. \<not> is_end m \<Longrightarrow>
     chain (Returned_spanRef w) ms s =
       Inr (Returned_spanRef w, s\<lparr>sdk := sdk s @ map (forwarded (wrapped w)) ms\<rparr>)"
proof (induction ms arbitrary: s)
  case Nil
  show ?case by simp
next
  case (Cons m ms)
  then have m: "\<not> is_end m" and ms: "\<forall>m\<in>set ms. \<not> is_end m"
    by simp_all
  show ?case
    by (simp add: invoke_not_end [OF m] Cons.IH [OF ms])
qed

text \<open>
  Claim C9 as stated, that every mutating method of the controller, \<^verbatim>\<open>end\<close> included,
  returns the controller, fails for \<^verbatim>\<open>end\<close>: its body has no \<^verbatim>\<open>return\<close> and the interface
  declares it \<^verbatim>\<open>void\<close>. On the controller of the README's first span, \<^verbatim>\<open>end()\<close> does
  not return that controller.
\<close>

theorem C9_end_returns_nothing:
  "fst (spanRef_end (fst (startSpan ''api_call'' None None (new_Trace counting_tracer []))) None
          api_call) \<noteq>
   Returned_spanRef (fst (startSpan ''api_call'' None None (new_Trace counting_tracer [])))"
  by (simp add: spanRef_end_def)

text \<open>
  Claim C9, amended. \<^verbatim>\<open>setAttribute\<close>, \<^verbatim>\<open>setAttributes\<close>, \<^verbatim>\<open>addEvent\<close>,
  \<^verbatim>\<open>setStatus\<close> and \<^verbatim>\<open>updateName\<close> forward the call to the wrapped span and return
  the same controller; \<^verbatim>\<open>end\<close> runs \<^verbatim>\<open>endSpan\<close> on the wrapped span and returns
  nothing. Hence a chain of calls other than \<^verbatim>\<open>end\<close> forwards every call, in order, to
  the same span and yields the controller it started from; \<^verbatim>\<open>end\<close> can close such a
  chain, and a call chained after \<^verbatim>\<open>end\<close> raises.
\<close>

theorem C9_chaining_except_end:
  "spanRef_setAttribute w key val s =
     (Returned_spanRef w, s\<lparr>sdk := sdk s @ [SetAttribute (wrapped w) key (AString val)]\<rparr>) \<and>
   spanRef_setAttributes w attrs s =
     (Returned_spanRef w, s\<lparr>sdk := sdk s @ [SetAttributes (wrapped w) attrs]\<rparr>) \<and>
   spanRef_addEvent w name attributesOrStartTime startTime s =
     (Returned_spanRef w,
      s\<lparr>sdk := sdk s @ [AddEvent (wrapped w) name attributesOrStartTime startTime]\<rparr>) \<and>
   spanRef_setStatus w status s =
     (Returned_spanRef w, s\<lparr>sdk := sdk s @ [SetStatus (wrapped w) status]\<rparr>) \<and>
   spanRef_updateName w name s =
     (Returned_spanRef w, s\<lparr>sdk := sdk s @ [UpdateName (wrapped w) name]\<rparr>) \<and>
   spanRef_end w endTime s = (Returned_undefined, endSpan (wrapped w) endTime s) \<and>
   ((\<forall>m\<in>set ms. \<not> is_end m) \<longrightarrow>
      chain (Returned_spanRef w) ms s =
        Inr (Returned_spanRef w, s\<lparr>sdk := sdk s @ map (forwarded (wrapped w)) ms\<rparr>) \<and>
      chain (Returned_spanRef w) (ms @ [M_end endTime]) s =
        Inr (Returned_undefined,
             endSpan (wrapped w) endTime (s\<lparr>sdk := sdk s @ map (forwarded (wrapped w)) ms\<rparr>)) \<and>
      chain (Returned_spanRef w) (ms @ M_end endTime # m # ms') s = Inl TypeError)"
proof -
  have after: "chain (Returned_spanRef w) (ms @ rest) s =
      chain (Returned_spanRef w) rest (s\<lparr>sdk := sdk s @ map (forwarded (wrapped w)) ms\<rparr>)"
    if "\<forall>m\<in>set ms. \<not> is_end m" for rest
    using that
  proof (induction ms arbitrary: s)
    case Nil
    show ?case by simp
  next
    case (Cons m ms)
    then have m: "\<not> is_end m" and ms: "\<forall>m\<in>set ms. \<not> is_end m"
      by simp_all
    show ?case
      by (simp add: invoke_not_end [OF m] Cons.IH [OF ms])
  qed
  have chained: "(\<forall>m\<in>set ms. \<not> is_end m) \<longrightarrow>
      chain (Returned_spanRef w) ms s =
        Inr (Returned_spanRef w, s\<lparr>sdk := sdk s @ map (forwarded (wrapped w)) ms\<rparr>) \<and>
      chain (Returned_spanRef w) (ms @ [M_end endTime]) s =
        Inr (Returned_undefined,
             endSpan (wrapped w) endTime (s\<lparr>sdk := sdk s @ map (forwarded (wrapped w)) ms\<rparr>)) \<and>
      chain (Returned_spanRef w) (ms @ M_end endTime # m # ms') s = Inl TypeError"
    by (simp add: chain_not_end after spanRef_end_def)
  have single: "spanRef_setAttribute w key val s =
     (Returned_spanRef w, s\<lparr>sdk := sdk s @ [SetAttribute (wrapped w) key (AString val)]\<rparr>) \<and>
   spanRef_setAttributes w attrs s =
     (Returned_spanRef w, s\<lparr>sdk := sdk s @ [SetAttributes (wrapped w) attrs]\<rparr>) \<and>
   spanRef_addEvent w name attributesOrStartTime startTime s =
     (Returned_spanRef w,
      s\<lparr>sdk := sdk s @ [AddEvent (wrapped w) name attributesOrStartTime startTime]\<rparr>) \<and>
   spanRef_setStatus w status s =
     (Returned_spanRef w, s\<lparr>sdk := sdk s @ [SetStatus (wrapped w) status]\<rparr>) \<and>
   spanRef_updateName w name s =
     (Returned_spanRef w, s\<lparr>sdk := sdk s @ [UpdateName (wrapped w) name]\<rparr>) \<and>
   spanRef_end w endTime s = (Returned_undefined, endSpan (wrapped w) endTime s)"
    by (simp add: spanRef_setAttribute_def spanRef_setAttributes_def spanRef_addEvent_def
      spanRef_setStatus_def spanRef_updateName_def spanRef_end_def)
  from single chained show ?thesis
    by blast
qed

theorem C9_chaining_except_end_witness:
  "chain (Returned_spanRef \<lparr>ident = 1, wrapped = 0\<rparr>)
     [M_setAttribute ''user_id'' ''42'', M_updateName ''api''] api_call =
     Inr (Returned_spanRef \<lparr>ident = 1, wrapped = 0\<rparr>,
          api_call\<lparr>sdk := sdk api_call @
            [SetAttribute 0 ''user_id'' (AString ''42''), UpdateName 0 ''api'']\<rparr>) \<and>
   chain (Returned_spanRef \<lparr>ident = 1, wrapped = 0\<rparr>)
     ([M_setAttribute ''user_id'' ''42'', M_updateName ''api''] @
      M_end None # M_updateName ''late'' # []) api_call = Inl TypeError"
proof -
  have no_end: "\<forall>m\<in>set [M_setAttribute ''user_id'' ''42'', M_updateName ''api'']. \<not> is_end m"
    by simp
  note inst = C9_chaining_except_end
      [of "\<lparr>ident = 1, wrapped = 0\<rparr>" "''k''" "''v''" api_call "[]" "''n''" None None
          "Status 0 None" None "[M_setAttribute ''user_id'' ''42'', M_updateName ''api'']"
          "M_updateName ''late''" "[]"]
  from inst no_end show ?thesis
    by simp
qed

subsection \<open>One step of the stack\<close>

lemma stack_sdk_update: "stack (s\<lparr>sdk := log\<rparr>) = stack s"
  by (simp add: stack_def)

lemma perform_stack:
  "stack (perform c s) =
     (case c of
        StartSpan name attrs ctx \<Rightarrow> stack s @ [wrapped (fst (startSpan name attrs ctx s))]
      | Ctl_end w endTime \<Rightarrow>
          (if stack s \<noteq> [] \<and> last (stack s) = wrapped w then butlast (stack s) else stack s)
      | _ \<Rightarrow> stack s)"
  by (cases c)
     (simp_all add: startSpan_stack addCommonAttribute_stack getSpanStack_stack endSpan_stack
        spanRef_end_def spanRef_context_def spanRef_setAttribute_def spanRef_setAttributes_def
        spanRef_addEvent_def spanRef_setStatus_def spanRef_updateName_def spanRef_isRecording_def
        stack_sdk_update)

lemma endSpan_stack_cases:
  "stack (endSpan span endTime s) = stack s \<or> stack s = stack (endSpan span endTime s) @ [span]"
  using append_butlast_last_id [of "stack s"] by (auto simp add: endSpan_stack)

text \<open>
  Claim C10. \<^verbatim>\<open>startSpan\<close> appends exactly the new span to the stack and leaves the
  entries before it as they were; \<^verbatim>\<open>endSpan\<close> leaves the stack as it is or removes its
  last entry, which is then the span ended; \<^verbatim>\<open>addCommonAttribute\<close> and
  \<^verbatim>\<open>getSpanStack\<close> do not change it. Hence after any single call, a controller method
  included, the stack is the previous one, the previous one with one entry appended, or
  the previous one without its last entry.
\<close>

theorem C10_stack_step:
  "stack (snd (startSpan name attrs ctx s)) = stack s @ [wrapped (fst (startSpan name attrs ctx s))] \<and>
   (stack (endSpan span endTime s) = stack s \<or>
    stack s = stack (endSpan span endTime s) @ [span]) \<and>
   stack (endSpan span endTime s) =
     (if stack s \<noteq> [] \<and> last (stack s) = span then butlast (stack s) else stack s) \<and>
   stack (addCommonAttribute key val s) = stack s \<and>
   stack (snd (getSpanStack s)) = stack s \<and>
   (stack (perform c s) = stack s \<or>
    (\<exists>new. stack (perform c s) = stack s @ [new]) \<or>
    (\<exists>old. stack s = stack (perform c s) @ [old]))"
proof -
  note ended = endSpan_stack_cases [of span endTime s]
  have step: "stack (perform c s) = stack s \<or>
      (\<exists>new. stack (perform c s) = stack s @ [new]) \<or>
      (\<exists>old. stack s = stack (perform c s) @ [old])"
  proof (cases c)
    case (StartSpan name' attrs' ctx')
    then have "stack (perform c s) = stack s @ [wrapped (fst (startSpan name' attrs' ctx' s))]"
      using perform_stack [of c s] by simp
    then show ?thesis by blast
  next
    case (Ctl_end w endTime')
    then have "stack (perform c s) = stack (endSpan (wrapped w) endTime' s)"
      by (simp add: spanRef_end_def)
    then show ?thesis
      using endSpan_stack_cases [of "wrapped w" endTime' s] by auto
  qed (use perform_stack [of c s] in simp_all)
  from startSpan_stack [of name attrs ctx s] ended endSpan_stack [of span endTime s]
    addCommonAttribute_stack [of key val s] getSpanStack_stack [of s] step
  show ?thesis by blast
qed

theorem C10_stack_step_witness:
  "stack (perform (StartSpan ''cache_lookup'' None None) connect_db) = [0, 1, 2] \<and>
   stack (perform (Ctl_end \<lparr>ident = 2, wrapped = 1\<rparr> None) connect_db) = [0] \<and>
   stack (perform (Ctl_end \<lparr>ident = 1, wrapped = 0\<rparr> None) connect_db) = [0, 1] \<and>
   stack (perform (AddCommonAttribute ''user_id'' ''42'') connect_db) = [0, 1] \<and>
   stack (perform GetSpanStack connect_db) = [0, 1]"
proof -
  have new: "wrapped (fst (startSpan ''cache_lookup'' None None connect_db)) = 2"
    by (simp add: ex_defs)
  note started = C10_stack_step [of "''cache_lookup''" None None connect_db 1 None "''user_id''" "''42''"
      GetSpanStack, unfolded stack_connect_db new]
  note not_top = C10_stack_step [of "''cache_lookup''" None None connect_db 0 None "''user_id''" "''42''"
      GetSpanStack, unfolded stack_connect_db new]
  from started not_top show ?thesis
    by (simp add: spanRef_end_def)
qed

end
